theory Spec2Isabelle
  imports Main "HOL-Library.AList"
begin

section \<open>The coverage tasks of \<^verbatim>\<open>task.js\<close>\<close>

text \<open>
  \<^verbatim>\<open>task.js\<close> registers three tasks (\<^verbatim>\<open>resetCoverage\<close>, \<^verbatim>\<open>combineCoverage\<close>,
  \<^verbatim>\<open>coverageReport\<close>) that accumulate coverage in the file \<^verbatim>\<open><cwd>/.nyc_output/out.json\<close>
  and hand it to a reporter. The tasks are side-effecting JavaScript; the embedding passes
  the state explicitly: a file system, and a trace of the console output and of every call
  that leaves the module. An exception is a value (\<open>Inl\<close>) returned together with the
  state reached when it was thrown.
\<close>

subsection \<open>Values\<close>

type_synonym path = string

text \<open>What \<^verbatim>\<open>JSON.parse\<close> returns. An object keeps its keys in order, as \<^verbatim>\<open>Object.keys\<close>
  lists them. Numbers are the integers of hit counts.\<close>

datatype json =
    JNull
  | JBool bool
  | JNum int
  | JStr string
  | JArr "json list"
  | JObj "(string \<times> json) list"

text \<open>JavaScript truthiness of a parsed value (objects and arrays are always truthy).\<close>

fun truthy :: "json \<Rightarrow> bool" where
  "truthy JNull = False"
| "truthy (JBool b) = b"
| "truthy (JNum n) = (n \<noteq> 0)"
| "truthy (JStr s) = (s \<noteq> [])"
| "truthy (JArr xs) = True"
| "truthy (JObj kvs) = True"

text \<open>Truthiness of a possibly \<^verbatim>\<open>undefined\<close> value (\<open>None\<close> is \<^verbatim>\<open>undefined\<close>).\<close>

definition truthy_opt :: "json option \<Rightarrow> bool" where
  "truthy_opt v = (case v of None \<Rightarrow> False | Some x \<Rightarrow> truthy x)"

datatype error =
    SyntaxError
  | TypeError
  | ENOENT path
  | ENOTDIR path
  | EEXIST path
  | EISDIR path
  | Rejected string

subsection \<open>Paths and the file system\<close>

text \<open>\<^verbatim>\<open>path.join\<close> on a folder and a plain name. (Node also normalises \<^verbatim>\<open>.\<close> and \<^verbatim>\<open>..\<close>
  segments; the names joined by this module are \<^verbatim>\<open>.nyc_output\<close>, \<^verbatim>\<open>out.json\<close>,
  \<^verbatim>\<open>package.json\<close> and \<^verbatim>\<open>coverage-final.json\<close>.)\<close>

definition join :: "path \<Rightarrow> string \<Rightarrow> path" where
  "join folder name = (if folder = [] then name else folder @ ''/'' @ name)"

text \<open>The folder that holds a path: everything before the last separator.\<close>

definition dirname :: "path \<Rightarrow> path" where
  "dirname p = rev (drop 1 (dropWhile (\<lambda>c. c \<noteq> CHR ''/'') (rev p)))"

record fsys =
  files :: "path \<rightharpoonup> string"
  dirs :: "path set"

definition existsSync :: "fsys \<Rightarrow> path \<Rightarrow> bool" where
  "existsSync fs p = (files fs p \<noteq> None \<or> p \<in> dirs fs)"

definition mkdirSync :: "path \<Rightarrow> fsys \<Rightarrow> error + fsys" where
  "mkdirSync p fs =
     (if existsSync fs p then Inl (EEXIST p)
      else if dirname p \<notin> dirs fs then Inl (ENOENT p)
      else Inr (fs\<lparr>dirs := insert p (dirs fs)\<rparr>))"

definition readFileSync :: "fsys \<Rightarrow> path \<Rightarrow> error + string" where
  "readFileSync fs p =
     (if p \<in> dirs fs then Inl (EISDIR p)
      else case files fs p of None \<Rightarrow> Inl (ENOENT p) | Some c \<Rightarrow> Inr c)"

text \<open>\<^verbatim>\<open>writeFileSync\<close> replaces the whole content of the file, or creates it; it fails on a
  directory and in a folder that is not there.\<close>

definition writeFileSync :: "path \<Rightarrow> string \<Rightarrow> fsys \<Rightarrow> error + fsys" where
  "writeFileSync p c fs =
     (if p \<in> dirs fs then Inl (EISDIR p)
      else if files fs (dirname p) \<noteq> None then Inl (ENOTDIR p)
      else if dirname p \<notin> dirs fs then Inl (ENOENT p)
      else Inr (fs\<lparr>files := (files fs)(p \<mapsto> c)\<rparr>))"

subsection \<open>Coverage data\<close>

text \<open>
  Modelled from the spec: the coverage-data library (\<^verbatim>\<open>istanbul-lib-coverage\<close>) is not part
  of the sources. The spec's data model: a coverage map is a mapping from file path to a
  per-file record of statement, function and branch hit counts, and merging is the
  union of the files with the hit counts of a file on both sides summed.
\<close>

record fileCoverage =
  hits_s :: "string \<rightharpoonup> nat"
  hits_f :: "string \<rightharpoonup> nat"
  hits_b :: "string \<rightharpoonup> nat list"

type_synonym coverageMap = "path \<rightharpoonup> fileCoverage"

text \<open>Modelled from the spec: a table on both sides is the union of the two, an entry on
  both sides combined by \<open>g\<close>.\<close>

definition unionWith :: "('v \<Rightarrow> 'v \<Rightarrow> 'v) \<Rightarrow> ('k \<rightharpoonup> 'v) \<Rightarrow> ('k \<rightharpoonup> 'v) \<Rightarrow> ('k \<rightharpoonup> 'v)" where
  "unionWith g m1 m2 =
     (\<lambda>k. case m1 k of
            None \<Rightarrow> m2 k
          | Some x \<Rightarrow> (case m2 k of None \<Rightarrow> Some x | Some y \<Rightarrow> Some (g x y)))"

text \<open>Modelled from the spec: the hit counts of the arms of one branch, summed arm by arm.\<close>

fun addArms :: "nat list \<Rightarrow> nat list \<Rightarrow> nat list" where
  "addArms [] ys = ys"
| "addArms xs [] = xs"
| "addArms (x # xs) (y # ys) = (x + y) # addArms xs ys"

text \<open>Modelled from the spec: the per-file merge (\<^verbatim>\<open>FileCoverage.merge\<close>), a sum of hit counts.\<close>

definition FileCoverage_merge :: "fileCoverage \<Rightarrow> fileCoverage \<Rightarrow> fileCoverage" where
  "FileCoverage_merge a b =
     \<lparr> hits_s = unionWith (+) (hits_s a) (hits_s b),
       hits_f = unionWith (+) (hits_f a) (hits_f b),
       hits_b = unionWith addArms (hits_b a) (hits_b b) \<rparr>"

text \<open>Modelled from the spec: \<^verbatim>\<open>CoverageMap.merge\<close>, the union of the files, a file on both
  sides merged per file.\<close>

definition CoverageMap_merge :: "coverageMap \<Rightarrow> coverageMap \<Rightarrow> coverageMap" where
  "CoverageMap_merge m other = unionWith FileCoverage_merge m other"

subsection \<open>The world outside the module\<close>

text \<open>Console output and the calls that leave the module, in the order they happen.\<close>

datatype event =
    Debug string "json option list"
  | Warn string "json option list"
  | Call_showNycInfo path
  | Call_checkAllPathsNotFound path
  | Call_tryFindingLocalFiles path
  | Call_resolveRelativePaths path
  | Call_readNycOptions path
  | Call_execa string "string list" "(string \<times> string) list"
  | Call_NYC_report "(string \<times> json) list"

record world =
  fs :: fsys
  trace :: "event list"

text \<open>
  What the module imports and does not define: the JavaScript built-ins
  (\<^verbatim>\<open>JSON.parse\<close>, \<^verbatim>\<open>JSON.stringify(_, null, 2)\<close>, \<^verbatim>\<open>path.resolve\<close>, \<^verbatim>\<open>process.cwd()\<close>),
  the coverage-data library's conversion between plain objects and coverage maps, the
  helpers of \<^verbatim>\<open>./task-utils\<close> and \<^verbatim>\<open>./support-utils\<close>, the subprocess runner and the
  reporting engine. They are parameters; a helper acts on the file system and may throw.
  \<open>execa\<close> stands for the whole run of the subprocess, to the settlement of its promise;
  \<open>NYC_report\<close> for \<^verbatim>\<open>new NYC(options)\<close> and the run of \<^verbatim>\<open>report()\<close>, to the settlement of
  its promise (\<open>Inl\<close> is a rejection). \<^verbatim>\<open>process.cwd()\<close> is the same each time it is read.
  \<open>fixSourcePaths\<close> rewrites its argument in place; here it returns the rewritten value.
\<close>

record env =
  cwd :: path
  JSON_parse :: "string \<Rightarrow> json option"
  JSON_stringify :: "json \<Rightarrow> string"
  path_resolve :: "string \<Rightarrow> path"
  createCoverageMap :: "json \<Rightarrow> coverageMap"
  toJSON :: "coverageMap \<Rightarrow> json"
  fixSourcePaths :: "json \<Rightarrow> json"
  showNycInfo :: "path \<Rightarrow> fsys \<Rightarrow> error + unit"
  checkAllPathsNotFound :: "path \<Rightarrow> fsys \<Rightarrow> error + bool"
  tryFindingLocalFiles :: "path \<Rightarrow> fsys \<Rightarrow> error + fsys"
  resolveRelativePaths :: "path \<Rightarrow> fsys \<Rightarrow> error + fsys"
  readNycOptions :: "path \<Rightarrow> fsys \<Rightarrow> error + (string \<times> json) list"
  execa :: "string \<Rightarrow> string list \<Rightarrow> (string \<times> string) list \<Rightarrow> fsys \<Rightarrow> (error + int) \<times> fsys"
  NYC_report :: "(string \<times> json) list \<Rightarrow> fsys \<Rightarrow> error + fsys"

text \<open>A task returns \<^verbatim>\<open>null\<close>, the settled subprocess (its exit code) or the report folder
  (\<open>None\<close> is \<^verbatim>\<open>undefined\<close>).\<close>

datatype result = Null | Completed int | ReportFolder "json option"

type_synonym 'a outcome = "(error + 'a) \<times> world"

definition debug :: "string \<Rightarrow> json option list \<Rightarrow> world \<Rightarrow> world" where
  "debug fmt args w = w\<lparr>trace := trace w @ [Debug fmt args]\<rparr>"

definition console_warn :: "string \<Rightarrow> json option list \<Rightarrow> world \<Rightarrow> world" where
  "console_warn fmt args w = w\<lparr>trace := trace w @ [Warn fmt args]\<rparr>"

definition call :: "event \<Rightarrow> world \<Rightarrow> world" where
  "call e w = w\<lparr>trace := trace w @ [e]\<rparr>"

subsection \<open>The module's constants (lines 19--34)\<close>

definition processWorkingDirectory :: "env \<Rightarrow> path" where
  "processWorkingDirectory E = cwd E"

definition outputFolder :: string where
  "outputFolder = ''.nyc_output''"

definition coverageFolder :: "env \<Rightarrow> path" where
  "coverageFolder E = join (processWorkingDirectory E) outputFolder"

definition nycFilename :: "env \<Rightarrow> path" where
  "nycFilename E = join (coverageFolder E) ''out.json''"

definition pkgFilename :: "env \<Rightarrow> path" where
  "pkgFilename E = join (processWorkingDirectory E) ''package.json''"

definition DEFAULT_CUSTOM_COVERAGE_SCRIPT_NAME :: string where
  "DEFAULT_CUSTOM_COVERAGE_SCRIPT_NAME = ''coverage:report''"

text \<open>Reading a property of a parsed value: \<open>Inl TypeError\<close> on \<^verbatim>\<open>null\<close>, \<^verbatim>\<open>undefined\<close> on
  a value that has no such property. (The module reads \<^verbatim>\<open>scripts\<close>, \<^verbatim>\<open>coverage:report\<close> and
  \<^verbatim>\<open>s\<close>, none of which a string, an array, a number or a boolean has.)\<close>

fun getProp :: "json \<Rightarrow> string \<Rightarrow> error + json option" where
  "getProp JNull k = Inl TypeError"
| "getProp (JObj kvs) k = Inr (map_of kvs k)"
| "getProp v k = Inr None"

text \<open>\<^verbatim>\<open>pkg\<close>, \<^verbatim>\<open>scripts\<close> and \<^verbatim>\<open>customNycReportScript\<close>, evaluated once, when the module is
  loaded, on the file system of that moment.\<close>

definition pkg :: "env \<Rightarrow> fsys \<Rightarrow> error + json" where
  "pkg E fs0 =
     (if existsSync fs0 (pkgFilename E)
      then (case readFileSync fs0 (pkgFilename E) of
              Inl e \<Rightarrow> Inl e
            | Inr text \<Rightarrow> (case JSON_parse E text of None \<Rightarrow> Inl SyntaxError | Some v \<Rightarrow> Inr v))
      else Inr (JObj []))"

definition scripts :: "env \<Rightarrow> fsys \<Rightarrow> error + json" where
  "scripts E fs0 =
     (case pkg E fs0 of
        Inl e \<Rightarrow> Inl e
      | Inr p \<Rightarrow> (case getProp p ''scripts'' of
                    Inl e \<Rightarrow> Inl e
                  | Inr v \<Rightarrow> Inr (if truthy_opt v then the v else JObj [])))"

definition customNycReportScript :: "env \<Rightarrow> fsys \<Rightarrow> error + json option" where
  "customNycReportScript E fs0 =
     (case scripts E fs0 of
        Inl e \<Rightarrow> Inl e
      | Inr sc \<Rightarrow> getProp sc DEFAULT_CUSTOM_COVERAGE_SCRIPT_NAME)"

subsection \<open>\<^verbatim>\<open>saveCoverage\<close> (lines 36--43)\<close>

definition saveCoverage :: "env \<Rightarrow> coverageMap \<Rightarrow> world \<Rightarrow> unit outcome" where
  "saveCoverage E coverage w =
     (let made =
        (if \<not> existsSync (fs w) (coverageFolder E)
         then (case mkdirSync (coverageFolder E) (fs w) of
                 Inl e \<Rightarrow> Inl e
               | Inr fs1 \<Rightarrow>
                   Inr (debug ''created folder %s for output coverage''
                          [Some (JStr (coverageFolder E))] (w\<lparr>fs := fs1\<rparr>)))
         else Inr w)
      in case made of
           Inl e \<Rightarrow> (Inl e, w)
         | Inr w1 \<Rightarrow>
             (case writeFileSync (nycFilename E) (JSON_stringify E (toJSON E coverage)) (fs w1) of
                Inl e \<Rightarrow> (Inl e, w1)
              | Inr fs2 \<Rightarrow> (Inr (), w1\<lparr>fs := fs2\<rparr>)))"

subsection \<open>\<^verbatim>\<open>resetCoverage\<close> (lines 86--100)\<close>

definition resetCoverage :: "env \<Rightarrow> bool \<Rightarrow> world \<Rightarrow> result outcome" where
  "resetCoverage E isInteractive w =
     (if isInteractive
      then (let w1 = debug ''reset code coverage in interactive mode'' [] w;
                coverageMap = createCoverageMap E (JObj [])
            in case saveCoverage E coverageMap w1 of
                 (Inl e, w2) \<Rightarrow> (Inl e, w2)
               | (Inr u, w2) \<Rightarrow> (Inr Null, w2))
      else (Inr Null, w))"

subsection \<open>\<^verbatim>\<open>combineCoverage\<close> (lines 109--123)\<close>

text \<open>Lines 114--116: what is on disk, parsed; \<open>None\<close> when there is no file yet.\<close>

definition readPrevious :: "env \<Rightarrow> fsys \<Rightarrow> error + json option" where
  "readPrevious E f =
     (if existsSync f (nycFilename E)
      then (case readFileSync f (nycFilename E) of
              Inl e \<Rightarrow> Inl e
            | Inr text \<Rightarrow> (case JSON_parse E text of None \<Rightarrow> Inl SyntaxError | Some v \<Rightarrow> Inr (Some v)))
      else Inr None)"

text \<open>With no file, \<^verbatim>\<open>previous\<close> is \<^verbatim>\<open>createCoverageMap({})\<close>, which \<^verbatim>\<open>createCoverageMap\<close>
  returns as it is. \<^verbatim>\<open>merge\<close> is given the plain object of the payload and makes a coverage
  map of it.\<close>

definition combineCoverage :: "env \<Rightarrow> string \<Rightarrow> world \<Rightarrow> result outcome" where
  "combineCoverage E sentCoverage w =
     (case JSON_parse E sentCoverage of
        None \<Rightarrow> (Inl SyntaxError, w)
      | Some parsed \<Rightarrow>
          (let w1 = debug ''parsed sent coverage'' [] w;
               coverage = fixSourcePaths E parsed
           in case readPrevious E (fs w1) of
                Inl e \<Rightarrow> (Inl e, w1)
              | Inr previous \<Rightarrow>
                  (let coverageMap =
                         (case previous of
                            Some v \<Rightarrow> createCoverageMap E v
                          | None \<Rightarrow> createCoverageMap E (JObj []));
                       merged = CoverageMap_merge coverageMap (createCoverageMap E coverage)
                   in case saveCoverage E merged w1 of
                        (Inl e, w2) \<Rightarrow> (Inl e, w2)
                      | (Inr u, w2) \<Rightarrow>
                          (Inr Null,
                           debug ''wrote coverage file %s'' [Some (JStr (nycFilename E))] w2))))"

subsection \<open>\<^verbatim>\<open>maybePrintFinalCoverageFiles\<close> (lines 45--74)\<close>

fun string_of_nat :: "nat \<Rightarrow> string" where
  "string_of_nat n =
     (if n < 10 then [char_of (48 + n)]
      else string_of_nat (n div 10) @ [char_of (48 + n mod 10)])"

text \<open>The own enumerable properties of a value: the keys \<^verbatim>\<open>Object.keys\<close> lists, each with
  the value that indexing by it gives. \<^verbatim>\<open>Object.keys(null)\<close> throws. (The keys of a parsed
  object are distinct.)\<close>

fun entries :: "json \<Rightarrow> error + (string \<times> json) list" where
  "entries JNull = Inl TypeError"
| "entries (JObj kvs) = Inr kvs"
| "entries (JArr xs) = Inr (zip (map string_of_nat [0..<length xs]) xs)"
| "entries (JStr cs) = Inr (zip (map string_of_nat [0..<length cs]) (map (\<lambda>c. JStr [c]) cs))"
| "entries v = Inr []"

text \<open>A function value is truthy: what \<^verbatim>\<open>!existsSync\<close> on line 47 negates is the imported
  function itself, not a call of it.\<close>

definition existsSync_reference_truthy :: bool where
  "existsSync_reference_truthy = True"

text \<open>The body of the \<^verbatim>\<open>forEach\<close> callback (lines 55--72): the debug line of one file. The
  first argument of the line (a check mark or a warning sign) is recorded as \<open>allCovered\<close>.\<close>

definition printFile :: "string \<Rightarrow> json \<Rightarrow> world \<Rightarrow> unit outcome" where
  "printFile key fileCov w =
     (case getProp fileCov ''s'' of
        Inl e \<Rightarrow> (Inl e, w)
      | Inr sv \<Rightarrow>
          (let s = (if truthy_opt sv then the sv else JObj []) in
           case entries s of
             Inl e \<Rightarrow> (Inl e, w)
           | Inr statements \<Rightarrow>
               (let totalStatements = length statements;
                    coveredStatements = length (filter (\<lambda>(statementKey, hit). truthy hit) statements);
                    allCovered = (coveredStatements = totalStatements)
                in (Inr (),
                    debug ''%s %s statements covered %d/%d''
                      [Some (JBool allCovered), Some (JStr key),
                       Some (JNum (int coveredStatements)), Some (JNum (int totalStatements))] w))))"

text \<open>\<^verbatim>\<open>forEach\<close>: an exception in the callback ends the loop.\<close>

fun printFiles :: "(string \<times> json) list \<Rightarrow> world \<Rightarrow> unit outcome" where
  "printFiles [] w = (Inr (), w)"
| "printFiles ((key, fileCov) # rest) w =
     (case printFile key fileCov w of
        (Inl e, w1) \<Rightarrow> (Inl e, w1)
      | (Inr u, w1) \<Rightarrow> printFiles rest w1)"

text \<open>\<^verbatim>\<open>path.join\<close> throws a \<^verbatim>\<open>TypeError\<close> on an argument that is not a string.\<close>

definition maybePrintFinalCoverageFiles :: "env \<Rightarrow> json option \<Rightarrow> world \<Rightarrow> unit outcome" where
  "maybePrintFinalCoverageFiles E folder w =
     (case folder of
        Some (JStr dir) \<Rightarrow>
          (let jsonReportFilename = join dir ''coverage-final.json'' in
           if \<not> existsSync_reference_truthy
           then (Inr (),
                 debug ''Did not find final coverage file %s'' [Some (JStr jsonReportFilename)] w)
           else
             (let w1 = debug ''Final coverage in %s'' [Some (JStr jsonReportFilename)] w in
              case readFileSync (fs w1) jsonReportFilename of
                Inl e \<Rightarrow> (Inl e, w1)
              | Inr text \<Rightarrow>
                  (case JSON_parse E text of
                     None \<Rightarrow> (Inl SyntaxError, w1)
                   | Some finalCoverage \<Rightarrow>
                       (case entries finalCoverage of
                          Inl e \<Rightarrow> (Inl e, w1)
                        | Inr fileEntries \<Rightarrow> printFiles fileEntries w1))))
      | _ \<Rightarrow> (Inl TypeError, w))"

subsection \<open>\<^verbatim>\<open>coverageReport\<close> (lines 129--182)\<close>

text \<open>Lines 136--143: the diagnostic pass, the completeness check with its fallback, and
  the path normalisation.\<close>

definition preparePaths :: "env \<Rightarrow> world \<Rightarrow> unit outcome" where
  "preparePaths E w =
     (let w1 = call (Call_showNycInfo (nycFilename E)) w in
      case showNycInfo E (nycFilename E) (fs w1) of
        Inl e \<Rightarrow> (Inl e, w1)
      | Inr u \<Rightarrow>
          (let w2 = call (Call_checkAllPathsNotFound (nycFilename E)) w1 in
           case checkAllPathsNotFound E (nycFilename E) (fs w2) of
             Inl e \<Rightarrow> (Inl e, w2)
           | Inr allSourceFilesMissing \<Rightarrow>
               (case (if allSourceFilesMissing
                      then (let w3 = call (Call_tryFindingLocalFiles (nycFilename E)) w2 in
                            case tryFindingLocalFiles E (nycFilename E) (fs w3) of
                              Inl e \<Rightarrow> (Inl e, w3)
                            | Inr f \<Rightarrow> (Inr (), w3\<lparr>fs := f\<rparr>))
                      else (Inr (), w2)) of
                  (Inl e, w4) \<Rightarrow> (Inl e, w4)
                | (Inr u, w4) \<Rightarrow>
                    (let w5 = call (Call_resolveRelativePaths (nycFilename E)) w4 in
                     case resolveRelativePaths E (nycFilename E) (fs w5) of
                       Inl e \<Rightarrow> (Inl e, w5)
                     | Inr f \<Rightarrow> (Inr (), w5\<lparr>fs := f\<rparr>)))))"

text \<open>Lines 145--155: the custom script, run by \<^verbatim>\<open>npm run\<close> with inherited streams.\<close>

definition runCustomScript :: "env \<Rightarrow> json option \<Rightarrow> world \<Rightarrow> result outcome" where
  "runCustomScript E script w =
     (let w1 = debug ''saving coverage report using script \"%s\" from package.json, command: %s''
                 [Some (JStr DEFAULT_CUSTOM_COVERAGE_SCRIPT_NAME), script] w;
          w2 = debug ''current working directory is %s'' [Some (JStr (cwd E))] w1;
          w3 = call (Call_execa ''npm'' [''run'', DEFAULT_CUSTOM_COVERAGE_SCRIPT_NAME]
                       [(''stdio'', ''inherit'')]) w2
      in case execa E ''npm'' [''run'', DEFAULT_CUSTOM_COVERAGE_SCRIPT_NAME]
                [(''stdio'', ''inherit'')] (fs w3) of
           (Inl e, f) \<Rightarrow> (Inl e, w3\<lparr>fs := f\<rparr>)
         | (Inr code, f) \<Rightarrow> (Inr (Completed code), w3\<lparr>fs := f\<rparr>))"

text \<open>Lines 160--164: the two overrides. \<^verbatim>\<open>path.resolve\<close> throws a \<^verbatim>\<open>TypeError\<close> on an
  argument that is not a string.\<close>

definition overrideOptions :: "env \<Rightarrow> (string \<times> json) list \<Rightarrow> error + (string \<times> json) list" where
  "overrideOptions E nycReportOptions =
     (let opts1 = AList.update ''tempDir'' (JStr (coverageFolder E)) nycReportOptions in
      if truthy_opt (map_of opts1 ''report-dir'')
      then (case map_of opts1 ''report-dir'' of
              Some (JStr dir) \<Rightarrow> Inr (AList.update ''report-dir'' (JStr (path_resolve E dir)) opts1)
            | _ \<Rightarrow> Inl TypeError)
      else Inr opts1)"

text \<open>Lines 170--180: the continuation run when the engine's promise resolves.\<close>

definition returnReportFolder :: "env \<Rightarrow> (string \<times> json) list \<Rightarrow> world \<Rightarrow> result outcome" where
  "returnReportFolder E nycReportOptions w =
     (let reportFolder = map_of nycReportOptions ''report-dir'';
          w1 = debug ''after reporting, returning the report folder name %s'' [reportFolder] w
      in case maybePrintFinalCoverageFiles E reportFolder w1 of
           (Inl e, w2) \<Rightarrow> (Inl e, w2)
         | (Inr u, w2) \<Rightarrow> (Inr (ReportFolder reportFolder), w2))"

text \<open>Lines 157--181: the internal reporting engine.\<close>

definition runNyc :: "env \<Rightarrow> world \<Rightarrow> result outcome" where
  "runNyc E w =
     (let w1 = call (Call_readNycOptions (processWorkingDirectory E)) w in
      case readNycOptions E (processWorkingDirectory E) (fs w1) of
        Inl e \<Rightarrow> (Inl e, w1)
      | Inr loaded \<Rightarrow>
          (case overrideOptions E loaded of
             Inl e \<Rightarrow> (Inl e, w1)
           | Inr nycReportOptions \<Rightarrow>
               (let w2 = debug ''calling NYC reporter with options %o''
                           [Some (JObj nycReportOptions)] w1;
                    w3 = debug ''current working directory is %s'' [Some (JStr (cwd E))] w2;
                    w4 = call (Call_NYC_report nycReportOptions) w3
                in case NYC_report E nycReportOptions (fs w4) of
                     Inl e \<Rightarrow> (Inl e, w4)
                   | Inr f \<Rightarrow> returnReportFolder E nycReportOptions (w4\<lparr>fs := f\<rparr>))))"

text \<open>The task. \<open>script\<close> is the module's constant \<^verbatim>\<open>customNycReportScript\<close>.\<close>

definition coverageReport :: "env \<Rightarrow> json option \<Rightarrow> world \<Rightarrow> result outcome" where
  "coverageReport E script w =
     (if \<not> existsSync (fs w) (nycFilename E)
      then (Inr Null,
            console_warn ''Skipping coverage report'' []
              (console_warn ''Cannot find coverage file %s'' [Some (JStr (nycFilename E))] w))
      else (case preparePaths E w of
              (Inl e, w1) \<Rightarrow> (Inl e, w1)
            | (Inr u, w1) \<Rightarrow>
                (if truthy_opt script then runCustomScript E script w1 else runNyc E w1)))"

section \<open>Notions used to state the properties\<close>

text \<open>The directories are such that a save can succeed: \<^verbatim>\<open>out.json\<close> is not a directory,
  \<^verbatim>\<open>.nyc_output\<close> is not a regular file, and \<^verbatim>\<open>.nyc_output\<close> is a directory or can be
  made in the working directory. Nothing is asked of the content of \<^verbatim>\<open>out.json\<close>.\<close>

definition saveable :: "env \<Rightarrow> fsys \<Rightarrow> bool" where
  "saveable E f =
     (nycFilename E \<notin> dirs f \<and> files f (coverageFolder E) = None \<and>
      (coverageFolder E \<in> dirs f \<or> cwd E \<in> dirs f))"

text \<open>The file system after a successful save of \<open>m\<close>.\<close>

definition written :: "env \<Rightarrow> coverageMap \<Rightarrow> fsys \<Rightarrow> fsys" where
  "written E m f =
     f\<lparr>files := (files f)(nycFilename E \<mapsto> JSON_stringify E (toJSON E m)),
       dirs := insert (coverageFolder E) (dirs f)\<rparr>"

text \<open>\<^verbatim>\<open>JSON.parse\<close> reads the text of \<open>j\<close> back as a value with the same text.\<close>

definition reparses :: "env \<Rightarrow> json \<Rightarrow> bool" where
  "reparses E j =
     (case JSON_parse E (JSON_stringify E j) of
        None \<Rightarrow> False
      | Some v \<Rightarrow> JSON_stringify E v = JSON_stringify E j)"







text \<open>Kinds of events: a call of the reporting engine, a spawned subprocess, and the
  four path helpers of \<^verbatim>\<open>./task-utils\<close>.\<close>

fun isNycCall :: "event \<Rightarrow> bool" where
  "isNycCall (Call_NYC_report opts) = True"
| "isNycCall e = False"

fun isExecaCall :: "event \<Rightarrow> bool" where
  "isExecaCall (Call_execa cmd args opts) = True"
| "isExecaCall e = False"

definition isReporterCall :: "event \<Rightarrow> bool" where
  "isReporterCall e = (isNycCall e \<or> isExecaCall e)"

fun isPathStep :: "event \<Rightarrow> bool" where
  "isPathStep (Call_showNycInfo p) = True"
| "isPathStep (Call_checkAllPathsNotFound p) = True"
| "isPathStep (Call_tryFindingLocalFiles p) = True"
| "isPathStep (Call_resolveRelativePaths p) = True"
| "isPathStep e = False"

fun isDebug :: "event \<Rightarrow> bool" where
  "isDebug (Debug fmt args) = True"
| "isDebug e = False"

text \<open>The debug line \<^verbatim>\<open>maybePrintFinalCoverageFiles\<close> prints per file.\<close>

fun isCoverageLine :: "event \<Rightarrow> bool" where
  "isCoverageLine (Debug fmt args) = (fmt = ''%s %s statements covered %d/%d'')"
| "isCoverageLine e = False"

section \<open>A small environment for the worked examples\<close>

definition demo_covA :: fileCoverage where
  "demo_covA = \<lparr>hits_s = [''0'' \<mapsto> 1], hits_f = Map.empty, hits_b = Map.empty\<rparr>"


definition demo_fileJSON :: "fileCoverage \<Rightarrow> json" where
  "demo_fileJSON c =
     JObj [(''s'', JObj (case hits_s c ''0'' of None \<Rightarrow> [] | Some n \<Rightarrow> [(''0'', JNum (int n))]))]"

definition demo_toJSON :: "coverageMap \<Rightarrow> json" where
  "demo_toJSON m =
     JObj (concat (map (\<lambda>p. case m p of None \<Rightarrow> [] | Some c \<Rightarrow> [(p, demo_fileJSON c)])
                       [''/w/a.js'', ''/w/b.js'']))"

definition demo_fileOf :: "json \<Rightarrow> fileCoverage" where
  "demo_fileOf v =
     \<lparr>hits_s = (case v of JObj [(k, JObj [(i, JNum n)])] \<Rightarrow> [i \<mapsto> nat n] | _ \<Rightarrow> Map.empty),
      hits_f = Map.empty, hits_b = Map.empty\<rparr>"

definition demo_createCoverageMap :: "json \<Rightarrow> coverageMap" where
  "demo_createCoverageMap v =
     (case v of JObj kvs \<Rightarrow> map_of (map (\<lambda>(p, c). (p, demo_fileOf c)) kvs) | _ \<Rightarrow> Map.empty)"

definition demo_jsonA :: json where
  "demo_jsonA = JObj [(''/w/a.js'', JObj [(''s'', JObj [(''0'', JNum 1)])])]"

definition demo_jsonB :: json where
  "demo_jsonB = JObj [(''/w/b.js'', JObj [(''s'', JObj [(''0'', JNum 2)])])]"

definition demo_jsonAB :: json where
  "demo_jsonAB = JObj [(''/w/a.js'', JObj [(''s'', JObj [(''0'', JNum 1)])]),
                       (''/w/b.js'', JObj [(''s'', JObj [(''0'', JNum 2)])])]"

text \<open>The texts of the documents of the examples (written compactly).\<close>

definition demo_documents :: "(json \<times> string) list" where
  "demo_documents =
     [(JObj [], ''{}''),
      (demo_jsonA, ''{\"/w/a.js\":{\"s\":{\"0\":1}}}''),
      (demo_jsonB, ''{\"/w/b.js\":{\"s\":{\"0\":2}}}''),
      (demo_jsonAB, ''{\"/w/a.js\":{\"s\":{\"0\":1}},\"/w/b.js\":{\"s\":{\"0\":2}}}''),
      (JObj [(''/w/a.js'', JObj [(''s'', JObj [(''1'', JNum 1), (''2'', JNum 0)])])],
       ''{\"/w/a.js\":{\"s\":{\"1\":1,\"2\":0}}}''),
      (JObj [(''scripts'', JObj [(''coverage:report'', JStr ''nyc report'')])],
       ''{\"scripts\":{\"coverage:report\":\"nyc report\"}}'')]"

definition demo_stringify :: "json \<Rightarrow> string" where
  "demo_stringify j = (case map_of demo_documents j of None \<Rightarrow> ''null'' | Some t \<Rightarrow> t)"

definition demo_parse :: "string \<Rightarrow> json option" where
  "demo_parse t = map_of (map (\<lambda>(j, t). (t, j)) demo_documents) t"

definition demo_options :: "(string \<times> json) list" where
  "demo_options = [(''reporter'', JArr [JStr ''html'']), (''report-dir'', JStr ''coverage'')]"

definition demo_E :: env where
  "demo_E =
     \<lparr> cwd = ''/w'',
       JSON_parse = demo_parse,
       JSON_stringify = demo_stringify,
       path_resolve = (\<lambda>d. if d = [] then ''/w'' else if hd d = CHR ''/'' then d else join ''/w'' d),
       createCoverageMap = demo_createCoverageMap,
       toJSON = demo_toJSON,
       fixSourcePaths = (\<lambda>j. j),
       showNycInfo = (\<lambda>p f. Inr ()),
       checkAllPathsNotFound = (\<lambda>p f. Inr (files f ''/w/a.js'' = None)),
       tryFindingLocalFiles = (\<lambda>p f. Inr f),
       resolveRelativePaths = (\<lambda>p f. Inr f),
       readNycOptions = (\<lambda>p f. Inr demo_options),
       execa = (\<lambda>cmd args opts f. (Inr 0, f)),
       NYC_report = (\<lambda>opts f. Inr (f\<lparr>dirs := insert ''/w/coverage'' (dirs f)\<rparr>)) \<rparr>"

text \<open>The same project with an empty \<^verbatim>\<open>report-dir\<close> in its configuration.\<close>

definition demo_E_emptyDir :: env where
  "demo_E_emptyDir = demo_E\<lparr>readNycOptions := (\<lambda>p f. Inr [(''report-dir'', JStr [])])\<rparr>"

text \<open>A working directory with nothing in it, and one with a coverage file.\<close>

definition demo_fresh :: world where
  "demo_fresh = \<lparr> fs = \<lparr>files = Map.empty, dirs = {''/w''}\<rparr>, trace = [] \<rparr>"

definition demo_collected :: world where
  "demo_collected =
     \<lparr> fs = \<lparr>files = [''/w/.nyc_output/out.json'' \<mapsto> ''{\"/w/a.js\":{\"s\":{\"0\":1}}}''],
              dirs = {''/w'', ''/w/.nyc_output''}\<rparr>,
       trace = [] \<rparr>"

text \<open>The file system when the module is loaded, in a project with a custom script.\<close>

definition demo_project :: fsys where
  "demo_project =
     \<lparr>files = [''/w/package.json'' \<mapsto> ''{\"scripts\":{\"coverage:report\":\"nyc report\"}}''],
      dirs = {''/w''}\<rparr>"

text \<open>The same with the source file of the coverage on disk.\<close>

definition demo_resolved :: world where
  "demo_resolved =
     \<lparr> fs = \<lparr>files = [''/w/.nyc_output/out.json'' \<mapsto> ''{\"/w/a.js\":{\"s\":{\"0\":1}}}'',
                       ''/w/a.js'' \<mapsto> ''exports.a = 1''],
              dirs = {''/w'', ''/w/.nyc_output''}\<rparr>,
       trace = [] \<rparr>"

text \<open>After a report with the \<^verbatim>\<open>json\<close> reporter: one file, one of its two statements hit.\<close>

definition demo_reported :: world where
  "demo_reported =
     \<lparr> fs = \<lparr>files = [''/w/coverage/coverage-final.json'' \<mapsto> ''{\"/w/a.js\":{\"s\":{\"1\":1,\"2\":0}}}''],
              dirs = {''/w'', ''/w/coverage''}\<rparr>,
       trace = [] \<rparr>"

section \<open>The file system and the coverage store\<close>

lemma dirname_join: "CHR ''/'' \<notin> set name \<Longrightarrow> dirname (join folder name) = folder"
proof -
  assume "CHR ''/'' \<notin> set name"
  then have all: "\<And>c. c \<in> set (rev name) \<Longrightarrow> c \<noteq> CHR ''/''"
    by auto
  have nil: "dropWhile (\<lambda>c. c \<noteq> CHR ''/'') (rev name) = []"
    using all by (simp add: dropWhile_eq_Nil_conv)
  show ?thesis
  proof (cases "folder = []")
    case True
    then show ?thesis by (simp add: dirname_def join_def nil)
  next
    case False
    have "dropWhile (\<lambda>c. c \<noteq> CHR ''/'') (rev name @ CHR ''/'' # rev folder) = CHR ''/'' # rev folder"
      by (subst dropWhile_append2) (use all in auto)
    then show ?thesis using False by (simp add: dirname_def join_def)
  qed
qed

lemma dirname_coverageFolder: "dirname (coverageFolder E) = cwd E"
  by (simp add: coverageFolder_def processWorkingDirectory_def outputFolder_def dirname_join)

lemma dirname_nycFilename: "dirname (nycFilename E) = coverageFolder E"
  by (simp add: nycFilename_def dirname_join)

lemma nycFilename_neq: "nycFilename E \<noteq> coverageFolder E"
  by (simp add: nycFilename_def join_def)

lemma saveCoverage_fst: "saveable E (fs w) \<Longrightarrow> fst (saveCoverage E m w) = Inr ()"
  by (auto simp: saveable_def saveCoverage_def existsSync_def mkdirSync_def writeFileSync_def
      dirname_coverageFolder dirname_nycFilename debug_def Let_def nycFilename_neq)

lemma saveCoverage_fs: "saveable E (fs w) \<Longrightarrow> fs (snd (saveCoverage E m w)) = written E m (fs w)"
  by (auto simp: saveable_def saveCoverage_def existsSync_def mkdirSync_def writeFileSync_def
      dirname_coverageFolder dirname_nycFilename debug_def Let_def written_def insert_absorb
      nycFilename_neq)


lemma read_written:
  "saveable E f \<Longrightarrow>
   readFileSync (written E m f) (nycFilename E) = Inr (JSON_stringify E (toJSON E m))"
  by (simp add: readFileSync_def written_def saveable_def nycFilename_neq)

lemma exists_written: "existsSync (written E m f) (nycFilename E)"
  by (simp add: existsSync_def written_def)

lemma demo_paths:
  "coverageFolder demo_E = ''/w/.nyc_output''"
  "nycFilename demo_E = ''/w/.nyc_output/out.json''"
  by (simp_all add: nycFilename_def coverageFolder_def processWorkingDirectory_def
      outputFolder_def join_def demo_E_def)

lemma demo_fresh_saveable: "saveable demo_E (fs demo_fresh)"
  by (simp add: saveable_def demo_paths demo_fresh_def) (simp add: demo_E_def)

lemma demo_collected_saveable: "saveable demo_E (fs demo_collected)"
  by (simp add: saveable_def demo_paths demo_collected_def)

section \<open>Reset\<close>

text \<open>
  Claim C2. \<^verbatim>\<open>resetCoverage\<close> with the interactive flag true replaces the persisted coverage
  file with the serialisation of an empty coverage map (\<^verbatim>\<open>createCoverageMap({})\<close>), whatever
  the file held before, leaves every other file as it was, and returns \<^verbatim>\<open>null\<close>; with the
  flag false it returns \<^verbatim>\<open>null\<close> and changes nothing at all. The interactive branch is stated
  for a directory layout in which the save can succeed (\<open>saveable\<close>), which asks nothing of
  the prior content of the file.
\<close>

theorem resetCoverage_spec:
  "(saveable E (fs w) \<longrightarrow>
      fst (resetCoverage E True w) = Inr Null \<and>
      readFileSync (fs (snd (resetCoverage E True w))) (nycFilename E) =
        Inr (JSON_stringify E (toJSON E (createCoverageMap E (JObj [])))) \<and>
      (\<forall>p. p \<noteq> nycFilename E \<longrightarrow>
         files (fs (snd (resetCoverage E True w))) p = files (fs w) p)) \<and>
   resetCoverage E False w = (Inr Null, w)"
proof (intro conjI impI allI)
  show "resetCoverage E False w = (Inr Null, w)"
    by (simp add: resetCoverage_def)
next
  let ?w1 = "debug ''reset code coverage in interactive mode'' [] w"
  let ?m = "createCoverageMap E (JObj [])"
  assume ok: "saveable E (fs w)"
  then have ok1: "saveable E (fs ?w1)"
    by (simp add: debug_def)
  have res: "resetCoverage E True w = (Inr Null, snd (saveCoverage E ?m ?w1))"
    using saveCoverage_fst [OF ok1, of ?m]
    by (cases "saveCoverage E ?m ?w1") (auto simp: resetCoverage_def Let_def)
  have after: "fs (snd (resetCoverage E True w)) = written E ?m (fs w)"
    using saveCoverage_fs [OF ok1, of ?m] by (simp add: res debug_def)
  show "fst (resetCoverage E True w) = Inr Null"
    by (simp add: res)
  show "readFileSync (fs (snd (resetCoverage E True w))) (nycFilename E) =
        Inr (JSON_stringify E (toJSON E ?m))"
    using read_written [OF ok] by (simp add: after)
  fix p assume "p \<noteq> nycFilename E"
  then show "files (fs (snd (resetCoverage E True w))) p = files (fs w) p"
    by (simp add: after written_def)
qed

theorem resetCoverage_spec_witness:
  "saveable demo_E (fs demo_collected) \<and>
   fst (resetCoverage demo_E True demo_collected) = Inr Null \<and>
   readFileSync (fs (snd (resetCoverage demo_E True demo_collected))) ''/w/.nyc_output/out.json''
     = Inr ''{}'' \<and>
   readFileSync (fs demo_collected) ''/w/.nyc_output/out.json''
     = Inr ''{\"/w/a.js\":{\"s\":{\"0\":1}}}'' \<and>
   resetCoverage demo_E False demo_collected = (Inr Null, demo_collected)"
proof -
  have empty: "JSON_stringify demo_E (toJSON demo_E (createCoverageMap demo_E (JObj []))) = ''{}''"
    by (simp add: demo_E_def demo_createCoverageMap_def demo_toJSON_def demo_stringify_def
        demo_documents_def)
  have before: "readFileSync (fs demo_collected) ''/w/.nyc_output/out.json''
     = Inr ''{\"/w/a.js\":{\"s\":{\"0\":1}}}''"
    by (simp add: readFileSync_def demo_collected_def)
  show ?thesis
    using resetCoverage_spec [of demo_E demo_collected] demo_collected_saveable before
    by (simp add: empty demo_paths)
qed

section \<open>Combine: a malformed payload\<close>

text \<open>
  Claim C3. When the payload of \<^verbatim>\<open>combineCoverage\<close> is not valid JSON (\<^verbatim>\<open>JSON.parse\<close> throws),
  the call ends with that \<^verbatim>\<open>SyntaxError\<close>, uncaught, and the world (the persisted coverage
  file included) is exactly as it was before the call: nothing is read, written or printed
  before the parse.
\<close>

theorem combineCoverage_malformed:
  "JSON_parse E sentCoverage = None \<Longrightarrow> combineCoverage E sentCoverage w = (Inl SyntaxError, w)"
  by (simp add: combineCoverage_def)

theorem combineCoverage_malformed_witness:
  "JSON_parse demo_E ''{oops'' = None \<and>
   combineCoverage demo_E ''{oops'' demo_collected = (Inl SyntaxError, demo_collected)"
proof -
  have "JSON_parse demo_E ''{oops'' = None"
    by (simp add: demo_E_def demo_parse_def demo_documents_def)
  then show ?thesis
    using combineCoverage_malformed [of demo_E "''{oops''" demo_collected] by simp
qed

section \<open>Round trip through the coverage store\<close>

text \<open>
  Claim C9. After \<^verbatim>\<open>saveCoverage\<close> of a coverage map the persisted file holds exactly the
  text \<^verbatim>\<open>JSON.stringify\<close> gives for it, and loading the file at once (lines 114--116 of
  \<^verbatim>\<open>combineCoverage\<close>) yields a value whose JSON text is the text of the original map.
  \<^verbatim>\<open>JSON.parse\<close> and \<^verbatim>\<open>JSON.stringify\<close> are the runtime's: the theorem takes from them that
  the text of this map parses back to a value with the same text (\<open>reparses\<close>), and proves
  the rest of the code: the folder is made when missing, the write replaces the whole file,
  and the load reads the path the save wrote.
\<close>

theorem save_then_load:
  assumes "saveable E (fs w)" and "reparses E (toJSON E coverage)"
  shows "fst (saveCoverage E coverage w) = Inr () \<and>
         readFileSync (fs (snd (saveCoverage E coverage w))) (nycFilename E) =
           Inr (JSON_stringify E (toJSON E coverage)) \<and>
         (\<exists>loaded. readPrevious E (fs (snd (saveCoverage E coverage w))) = Inr (Some loaded) \<and>
                   JSON_stringify E loaded = JSON_stringify E (toJSON E coverage))"
proof -
  let ?f = "fs (snd (saveCoverage E coverage w))"
  have f: "?f = written E coverage (fs w)"
    using assms(1) by (rule saveCoverage_fs)
  have content: "readFileSync ?f (nycFilename E) = Inr (JSON_stringify E (toJSON E coverage))"
    using read_written [OF assms(1)] by (simp add: f)
  from assms(2) obtain loaded where
    parsed: "JSON_parse E (JSON_stringify E (toJSON E coverage)) = Some loaded" and
    same: "JSON_stringify E loaded = JSON_stringify E (toJSON E coverage)"
    by (auto simp: reparses_def split: option.splits)
  have "readPrevious E ?f = Inr (Some loaded)"
    using content parsed exists_written [of E coverage "fs w"]
    by (simp add: readPrevious_def f)
  with same content saveCoverage_fst [OF assms(1)] show ?thesis
    by blast
qed

lemma demo_toJSON_A: "toJSON demo_E [''/w/a.js'' \<mapsto> demo_covA] = demo_jsonA"
  by (simp add: demo_E_def demo_toJSON_def demo_fileJSON_def demo_covA_def demo_jsonA_def)

theorem save_then_load_witness:
  "saveable demo_E (fs demo_fresh) \<and> reparses demo_E (toJSON demo_E [''/w/a.js'' \<mapsto> demo_covA]) \<and>
   readPrevious demo_E (fs (snd (saveCoverage demo_E [''/w/a.js'' \<mapsto> demo_covA] demo_fresh)))
     = Inr (Some demo_jsonA)"
proof -
  have r: "reparses demo_E (toJSON demo_E [''/w/a.js'' \<mapsto> demo_covA])"
    unfolding demo_toJSON_A
    by (simp add: reparses_def demo_E_def demo_parse_def demo_stringify_def demo_documents_def
        demo_jsonA_def demo_jsonB_def demo_jsonAB_def)
  have p: "JSON_parse demo_E (JSON_stringify demo_E demo_jsonA) = Some demo_jsonA"
    by (simp add: demo_E_def demo_parse_def demo_stringify_def demo_documents_def
        demo_jsonA_def demo_jsonB_def demo_jsonAB_def)
  have "readFileSync (fs (snd (saveCoverage demo_E [''/w/a.js'' \<mapsto> demo_covA] demo_fresh)))
          (nycFilename demo_E) = Inr (JSON_stringify demo_E demo_jsonA)"
    using save_then_load [OF demo_fresh_saveable r] by (simp add: demo_toJSON_A)
  then have "readPrevious demo_E (fs (snd (saveCoverage demo_E [''/w/a.js'' \<mapsto> demo_covA] demo_fresh)))
     = Inr (Some demo_jsonA)"
    using p by (simp add: readPrevious_def existsSync_def readFileSync_def split: if_splits option.splits)
  then show ?thesis using demo_fresh_saveable r by simp
qed

section \<open>The diagnostic print after a report\<close>

lemma isCoverageLine_isDebug: "isCoverageLine e \<Longrightarrow> isDebug e"
  by (cases e) simp_all

lemma printFile_trace:
  "\<exists>evs. trace (snd (printFile key v w)) = trace w @ evs \<and> (\<forall>e\<in>set evs. isCoverageLine e) \<and>
         fs (snd (printFile key v w)) = fs w"
  by (auto simp: printFile_def debug_def Let_def split: sum.splits)

lemma printFiles_trace:
  "\<exists>evs. trace (snd (printFiles xs w)) = trace w @ evs \<and> (\<forall>e\<in>set evs. isCoverageLine e) \<and>
         fs (snd (printFiles xs w)) = fs w"
proof (induction xs arbitrary: w)
  case Nil
  then show ?case by simp
next
  case (Cons x xs)
  obtain key v where x: "x = (key, v)" by (cases x)
  obtain r w1 where step: "printFile key v w = (r, w1)" by (cases "printFile key v w")
  from printFile_trace [of key v w] step obtain evs1 where
    evs1: "trace w1 = trace w @ evs1" "\<forall>e\<in>set evs1. isCoverageLine e" "fs w1 = fs w"
    by auto
  show ?case
  proof (cases r)
    case (Inl e)
    then show ?thesis using x step evs1 by auto
  next
    case (Inr u)
    from Cons.IH [of w1] obtain evs2 where
      evs2: "trace (snd (printFiles xs w1)) = trace w1 @ evs2" "\<forall>e\<in>set evs2. isCoverageLine e"
            "fs (snd (printFiles xs w1)) = fs w1"
      by auto
    have "trace (snd (printFiles (x # xs) w)) = trace w @ (evs1 @ evs2)"
      using x step Inr evs1 evs2 by simp
    moreover have "\<forall>e\<in>set (evs1 @ evs2). isCoverageLine e"
      using evs1 evs2 by auto
    moreover have "fs (snd (printFiles (x # xs) w)) = fs w"
      using x step Inr evs1 evs2 by simp
    ultimately show ?thesis by blast
  qed
qed

text \<open>With a folder name, the function always prints line 52 and goes on to read.\<close>

lemma maybePrint_reads:
  "maybePrintFinalCoverageFiles E (Some (JStr dir)) w =
     (let name = join dir ''coverage-final.json'';
          w1 = debug ''Final coverage in %s'' [Some (JStr name)] w
      in case readFileSync (fs w) name of
           Inl e \<Rightarrow> (Inl e, w1)
         | Inr t \<Rightarrow>
             (case JSON_parse E t of
                None \<Rightarrow> (Inl SyntaxError, w1)
              | Some finalCoverage \<Rightarrow>
                  (case entries finalCoverage of
                     Inl e \<Rightarrow> (Inl e, w1)
                   | Inr fileEntries \<Rightarrow> printFiles fileEntries w1)))"
  by (simp add: maybePrintFinalCoverageFiles_def existsSync_reference_truthy_def Let_def debug_def)

lemma maybePrint_str_trace:
  "\<exists>rest. trace (snd (maybePrintFinalCoverageFiles E (Some (JStr dir)) w)) =
            trace w @ Debug ''Final coverage in %s'' [Some (JStr (join dir ''coverage-final.json''))] # rest \<and>
          (\<forall>e\<in>set rest. isCoverageLine e) \<and>
          fs (snd (maybePrintFinalCoverageFiles E (Some (JStr dir)) w)) = fs w"
proof -
  let ?name = "join dir ''coverage-final.json''"
  let ?w1 = "debug ''Final coverage in %s'' [Some (JStr ?name)] w"
  have w1: "trace ?w1 = trace w @ [Debug ''Final coverage in %s'' [Some (JStr ?name)]]" "fs ?w1 = fs w"
    by (simp_all add: debug_def)
  show ?thesis
  proof (cases "\<exists>t j xs. readFileSync (fs w) ?name = Inr t \<and> JSON_parse E t = Some j \<and> entries j = Inr xs")
    case True
    then obtain t j xs where
      ok: "readFileSync (fs w) ?name = Inr t" "JSON_parse E t = Some j" "entries j = Inr xs"
      by blast
    from printFiles_trace [of xs ?w1] obtain evs where
      evs: "trace (snd (printFiles xs ?w1)) = trace ?w1 @ evs" "\<forall>e\<in>set evs. isCoverageLine e"
           "fs (snd (printFiles xs ?w1)) = fs ?w1"
      by blast
    have "maybePrintFinalCoverageFiles E (Some (JStr dir)) w = printFiles xs ?w1"
      using ok by (simp add: maybePrint_reads Let_def)
    then show ?thesis using evs w1 by simp
  next
    case False
    then have "snd (maybePrintFinalCoverageFiles E (Some (JStr dir)) w) = ?w1"
      by (auto simp: maybePrint_reads Let_def split: sum.splits option.splits)
    then show ?thesis using w1 by simp
  qed
qed

lemma maybePrint_trace:
  "\<exists>evs. trace (snd (maybePrintFinalCoverageFiles E folder w)) = trace w @ evs \<and>
         (\<forall>e\<in>set evs. isDebug e) \<and> fs (snd (maybePrintFinalCoverageFiles E folder w)) = fs w"
proof (cases "\<exists>dir. folder = Some (JStr dir)")
  case True
  then obtain dir where dir: "folder = Some (JStr dir)" by blast
  from maybePrint_str_trace [of E dir w] obtain rest where
    rest: "trace (snd (maybePrintFinalCoverageFiles E folder w)) =
            trace w @ Debug ''Final coverage in %s'' [Some (JStr (join dir ''coverage-final.json''))] # rest"
          "\<forall>e\<in>set rest. isCoverageLine e"
          "fs (snd (maybePrintFinalCoverageFiles E folder w)) = fs w"
    unfolding dir by blast
  have "\<forall>e\<in>set (Debug ''Final coverage in %s'' [Some (JStr (join dir ''coverage-final.json''))] # rest). isDebug e"
    using rest(2) by (auto intro: isCoverageLine_isDebug)
  with rest(1,3) show ?thesis by blast
next
  case False
  then have "maybePrintFinalCoverageFiles E folder w = (Inl TypeError, w)"
    by (auto simp: maybePrintFinalCoverageFiles_def split: option.splits json.splits)
  then show ?thesis by simp
qed

text \<open>The print at work: one of the two statements of \<^verbatim>\<open>/w/a.js\<close> is covered.\<close>

lemma maybePrint_example:
  "maybePrintFinalCoverageFiles demo_E (Some (JStr ''/w/coverage'')) demo_reported =
     (Inr (),
      demo_reported\<lparr>trace :=
        [Debug ''Final coverage in %s'' [Some (JStr ''/w/coverage/coverage-final.json'')],
         Debug ''%s %s statements covered %d/%d''
           [Some (JBool False), Some (JStr ''/w/a.js''), Some (JNum 1), Some (JNum 2)]]\<rparr>)"
proof -
  have "JSON_parse demo_E ''{\"/w/a.js\":{\"s\":{\"1\":1,\"2\":0}}}'' =
          Some (JObj [(''/w/a.js'', JObj [(''s'', JObj [(''1'', JNum 1), (''2'', JNum 0)])])])"
    by (simp add: demo_E_def demo_parse_def demo_documents_def demo_jsonA_def demo_jsonB_def
        demo_jsonAB_def)
  then show ?thesis
    by (simp add: maybePrint_reads Let_def join_def readFileSync_def demo_reported_def
        printFile_def truthy_opt_def debug_def)
qed

text \<open>
  Claim C10. In \<^verbatim>\<open>maybePrintFinalCoverageFiles\<close> the early return for a missing final-coverage
  file is never taken: the guard negates the function \<^verbatim>\<open>existsSync\<close> itself, which is truthy.
  So for every folder name and every world the function prints line 52 (\<^verbatim>\<open>Final coverage in\<close>)
  and reads \<^verbatim>\<open>coverage-final.json\<close> in that folder; everything it prints afterwards is a
  per-file line; whatever error the read throws is the function's outcome; and when the file
  does not exist the outcome is the read's \<^verbatim>\<open>ENOENT\<close>, thrown after line 52.
\<close>

theorem maybePrint_guard_dead:
  "(\<exists>rest. trace (snd (maybePrintFinalCoverageFiles E (Some (JStr dir)) w)) =
            trace w @ Debug ''Final coverage in %s'' [Some (JStr (join dir ''coverage-final.json''))] # rest \<and>
          (\<forall>e\<in>set rest. isCoverageLine e)) \<and>
   (\<forall>e. readFileSync (fs w) (join dir ''coverage-final.json'') = Inl e \<longrightarrow>
        fst (maybePrintFinalCoverageFiles E (Some (JStr dir)) w) = Inl e) \<and>
   (\<not> existsSync (fs w) (join dir ''coverage-final.json'') \<longrightarrow>
      maybePrintFinalCoverageFiles E (Some (JStr dir)) w =
        (Inl (ENOENT (join dir ''coverage-final.json'')),
         debug ''Final coverage in %s'' [Some (JStr (join dir ''coverage-final.json''))] w))"
proof (intro conjI allI impI)
  show "\<exists>rest. trace (snd (maybePrintFinalCoverageFiles E (Some (JStr dir)) w)) =
            trace w @ Debug ''Final coverage in %s'' [Some (JStr (join dir ''coverage-final.json''))] # rest \<and>
          (\<forall>e\<in>set rest. isCoverageLine e)"
    using maybePrint_str_trace [of E dir w] by blast
next
  fix e assume "readFileSync (fs w) (join dir ''coverage-final.json'') = Inl e"
  then show "fst (maybePrintFinalCoverageFiles E (Some (JStr dir)) w) = Inl e"
    by (simp add: maybePrint_reads Let_def)
next
  assume "\<not> existsSync (fs w) (join dir ''coverage-final.json'')"
  then have "readFileSync (fs w) (join dir ''coverage-final.json'') =
               Inl (ENOENT (join dir ''coverage-final.json''))"
    by (simp add: existsSync_def readFileSync_def)
  then show "maybePrintFinalCoverageFiles E (Some (JStr dir)) w =
        (Inl (ENOENT (join dir ''coverage-final.json'')),
         debug ''Final coverage in %s'' [Some (JStr (join dir ''coverage-final.json''))] w)"
    by (simp add: maybePrint_reads Let_def)
qed

theorem maybePrint_guard_dead_witness:
  "\<not> existsSync (fs demo_collected) (join ''/w/coverage'' ''coverage-final.json'') \<and>
   maybePrintFinalCoverageFiles demo_E (Some (JStr ''/w/coverage'')) demo_collected =
     (Inl (ENOENT ''/w/coverage/coverage-final.json''),
      demo_collected\<lparr>trace := [Debug ''Final coverage in %s'' [Some (JStr ''/w/coverage/coverage-final.json'')]]\<rparr>)"
proof -
  have missing: "\<not> existsSync (fs demo_collected) (join ''/w/coverage'' ''coverage-final.json'')"
    by (simp add: existsSync_def demo_collected_def join_def)
  show ?thesis
    using maybePrint_guard_dead [of demo_E "''/w/coverage''" demo_collected] missing
    by (simp add: join_def debug_def demo_collected_def)
qed

section \<open>Report: no coverage file\<close>

text \<open>
  Claim C4. When the persisted coverage file does not exist, \<^verbatim>\<open>coverageReport\<close> returns
  \<^verbatim>\<open>null\<close>; the file system is unchanged and the only events are the two warnings: no path
  helper, no subprocess and no reporting engine is called.
\<close>

theorem coverageReport_no_file:
  "\<not> existsSync (fs w) (nycFilename E) \<Longrightarrow>
   coverageReport E script w =
     (Inr Null,
      w\<lparr>trace := trace w @ [Warn ''Cannot find coverage file %s'' [Some (JStr (nycFilename E))],
                             Warn ''Skipping coverage report'' []]\<rparr>)"
  by (simp add: coverageReport_def console_warn_def)

theorem coverageReport_no_file_witness:
  "\<not> existsSync (fs demo_fresh) (nycFilename demo_E) \<and>
   coverageReport demo_E (Some (JStr ''nyc report'')) demo_fresh =
     (Inr Null,
      demo_fresh\<lparr>trace := [Warn ''Cannot find coverage file %s'' [Some (JStr ''/w/.nyc_output/out.json'')],
                           Warn ''Skipping coverage report'' []]\<rparr>)"
proof -
  have absent: "\<not> existsSync (fs demo_fresh) (nycFilename demo_E)"
    by (simp add: existsSync_def demo_fresh_def demo_paths)
  show ?thesis
    using coverageReport_no_file [OF absent, of "Some (JStr ''nyc report'')"] absent
    by (simp add: demo_paths demo_fresh_def)
qed

section \<open>Report: the path steps and the dispatch\<close>

lemma preparePaths_trace:
  "\<exists>evs. trace (snd (preparePaths E w)) = trace w @ evs \<and> (\<forall>e\<in>set evs. isPathStep e)"
  by (auto simp: preparePaths_def call_def Let_def split: sum.splits)

lemma preparePaths_ok:
  assumes "showNycInfo E (nycFilename E) (fs w) = Inr ()"
      and "checkAllPathsNotFound E (nycFilename E) (fs w) = Inr allMissing"
      and "allMissing \<Longrightarrow> tryFindingLocalFiles E (nycFilename E) (fs w) = Inr f1"
      and "resolveRelativePaths E (nycFilename E) (if allMissing then f1 else fs w) = Inr f2"
  shows "preparePaths E w =
           (Inr (),
            w\<lparr>fs := f2,
              trace := trace w @
                [Call_showNycInfo (nycFilename E), Call_checkAllPathsNotFound (nycFilename E)] @
                (if allMissing then [Call_tryFindingLocalFiles (nycFilename E)] else []) @
                [Call_resolveRelativePaths (nycFilename E)]\<rparr>)"
proof (cases allMissing)
  case True
  then show ?thesis using assms
    by (simp add: preparePaths_def call_def Let_def)
next
  case False
  then show ?thesis using assms
    by (simp add: preparePaths_def call_def Let_def)
qed

lemma runCustomScript_eq:
  "runCustomScript E script w =
     (case fst (execa E ''npm'' [''run'', ''coverage:report''] [(''stdio'', ''inherit'')] (fs w)) of
        Inl e \<Rightarrow> Inl e | Inr code \<Rightarrow> Inr (Completed code),
      w\<lparr>fs := snd (execa E ''npm'' [''run'', ''coverage:report''] [(''stdio'', ''inherit'')] (fs w)),
        trace := trace w @
          [Debug ''saving coverage report using script \"%s\" from package.json, command: %s''
             [Some (JStr ''coverage:report''), script],
           Debug ''current working directory is %s'' [Some (JStr (cwd E))],
           Call_execa ''npm'' [''run'', ''coverage:report''] [(''stdio'', ''inherit'')]]\<rparr>)"
  by (cases "execa E ''npm'' [''run'', ''coverage:report''] [(''stdio'', ''inherit'')] (fs w)")
     (auto simp: runCustomScript_def DEFAULT_CUSTOM_COVERAGE_SCRIPT_NAME_def debug_def call_def
       Let_def split: sum.splits)

lemma returnReportFolder_trace:
  "\<exists>evs. trace (snd (returnReportFolder E opts w)) = trace w @ evs \<and> (\<forall>e\<in>set evs. isDebug e)"
proof -
  let ?w1 = "debug ''after reporting, returning the report folder name %s'' [map_of opts ''report-dir''] w"
  from maybePrint_trace [of E "map_of opts ''report-dir''" ?w1] obtain evs where
    evs: "trace (snd (maybePrintFinalCoverageFiles E (map_of opts ''report-dir'') ?w1)) = trace ?w1 @ evs"
         "\<forall>e\<in>set evs. isDebug e"
    by blast
  have "trace (snd (returnReportFolder E opts w)) =
          trace (snd (maybePrintFinalCoverageFiles E (map_of opts ''report-dir'') ?w1))"
    by (cases "maybePrintFinalCoverageFiles E (map_of opts ''report-dir'') ?w1")
       (auto simp: returnReportFolder_def Let_def split: sum.splits)
  then have "trace (snd (returnReportFolder E opts w)) =
          trace w @ (Debug ''after reporting, returning the report folder name %s'' [map_of opts ''report-dir''] # evs)"
    using evs(1) by (simp add: debug_def)
  moreover have "\<forall>e\<in>set (Debug ''after reporting, returning the report folder name %s'' [map_of opts ''report-dir''] # evs). isDebug e"
    using evs(2) by simp
  ultimately show ?thesis by blast
qed

lemma runNyc_trace:
  "\<exists>evs. trace (snd (runNyc E w)) = trace w @ evs \<and>
         (\<forall>e\<in>set evs. \<not> isPathStep e \<and> \<not> isExecaCall e)"
proof (cases "\<exists>loaded opts f. readNycOptions E (processWorkingDirectory E) (fs w) = Inr loaded \<and>
                overrideOptions E loaded = Inr opts \<and> NYC_report E opts (fs w) = Inr f")
  case True
  then obtain loaded opts f where
    ok: "readNycOptions E (processWorkingDirectory E) (fs w) = Inr loaded"
        "overrideOptions E loaded = Inr opts" "NYC_report E opts (fs w) = Inr f"
    by blast
  let ?pre = "[Call_readNycOptions (processWorkingDirectory E),
               Debug ''calling NYC reporter with options %o'' [Some (JObj opts)],
               Debug ''current working directory is %s'' [Some (JStr (cwd E))],
               Call_NYC_report opts]"
  let ?w4 = "w\<lparr>trace := trace w @ ?pre, fs := f\<rparr>"
  have eq: "runNyc E w = returnReportFolder E opts ?w4"
    using ok by (simp add: runNyc_def call_def debug_def Let_def)
  from returnReportFolder_trace [of E opts ?w4] obtain evs where
    evs: "trace (snd (returnReportFolder E opts ?w4)) = trace ?w4 @ evs" "\<forall>e\<in>set evs. isDebug e"
    by blast
  have "trace (snd (runNyc E w)) = trace w @ (?pre @ evs)"
    using evs(1) by (simp add: eq)
  moreover have "\<forall>e\<in>set (?pre @ evs). \<not> isPathStep e \<and> \<not> isExecaCall e"
  proof
    fix e assume "e \<in> set (?pre @ evs)"
    then consider "e \<in> set ?pre" | "e \<in> set evs" by auto
    then show "\<not> isPathStep e \<and> \<not> isExecaCall e"
    proof cases
      case 1
      then show ?thesis by auto
    next
      case 2
      with evs(2) have "isDebug e" by blast
      then show ?thesis by (cases e) simp_all
    qed
  qed
  ultimately show ?thesis by blast
next
  case False
  then have "\<exists>evs. trace (snd (runNyc E w)) = trace w @ evs \<and> set evs \<subseteq>
      {Call_readNycOptions (processWorkingDirectory E), Debug ''current working directory is %s'' [Some (JStr (cwd E))]}
      \<union> range Call_NYC_report \<union> range (\<lambda>opts. Debug ''calling NYC reporter with options %o'' [Some (JObj opts)])"
    by (auto simp: runNyc_def call_def debug_def Let_def split: sum.splits)
  then obtain evs where evs: "trace (snd (runNyc E w)) = trace w @ evs"
     "set evs \<subseteq>
      {Call_readNycOptions (processWorkingDirectory E), Debug ''current working directory is %s'' [Some (JStr (cwd E))]}
      \<union> range Call_NYC_report \<union> range (\<lambda>opts. Debug ''calling NYC reporter with options %o'' [Some (JObj opts)])"
    by blast
  have "\<forall>e\<in>set evs. \<not> isPathStep e \<and> \<not> isExecaCall e"
    using evs(2) by auto
  with evs(1) show ?thesis by blast
qed

lemma filter_pathSteps_nyc: "\<forall>e\<in>set evs. isPathStep e \<Longrightarrow> filter isNycCall evs = []"
  by (induction evs) (auto elim: isPathStep.elims)

lemma filter_pathSteps_reporter: "\<forall>e\<in>set evs. isPathStep e \<Longrightarrow> filter isReporterCall evs = []"
  by (induction evs) (auto simp: isReporterCall_def elim: isPathStep.elims)

lemma demo_prepare:
  "preparePaths demo_E demo_collected =
     (Inr (),
      demo_collected\<lparr>trace :=
        [Call_showNycInfo ''/w/.nyc_output/out.json'',
         Call_checkAllPathsNotFound ''/w/.nyc_output/out.json'',
         Call_tryFindingLocalFiles ''/w/.nyc_output/out.json'',
         Call_resolveRelativePaths ''/w/.nyc_output/out.json'']\<rparr>)"
proof -
  have "preparePaths demo_E demo_collected =
     (Inr (),
      demo_collected\<lparr>fs := fs demo_collected, trace := trace demo_collected @
        [Call_showNycInfo (nycFilename demo_E), Call_checkAllPathsNotFound (nycFilename demo_E)] @
        (if True then [Call_tryFindingLocalFiles (nycFilename demo_E)] else []) @
        [Call_resolveRelativePaths (nycFilename demo_E)]\<rparr>)"
    by (rule preparePaths_ok [where ?f1.0 = "fs demo_collected"])
       (simp_all add: demo_E_def demo_collected_def)
  then show ?thesis by (simp add: demo_paths demo_collected_def)
qed

lemma demo_collected_exists: "existsSync (fs demo_collected) (nycFilename demo_E)"
  by (simp add: existsSync_def demo_paths demo_collected_def)

lemma demo_script:
  "customNycReportScript demo_E demo_project = Inr (Some (JStr ''nyc report''))"
proof -
  have name: "pkgFilename demo_E = ''/w/package.json''"
    by (simp add: pkgFilename_def processWorkingDirectory_def join_def demo_E_def)
  have "pkg demo_E demo_project = Inr (JObj [(''scripts'', JObj [(''coverage:report'', JStr ''nyc report'')])])"
    by (simp add: pkg_def name existsSync_def readFileSync_def demo_project_def)
       (simp add: demo_E_def demo_parse_def demo_documents_def)
  then show ?thesis
    by (simp add: customNycReportScript_def scripts_def truthy_opt_def
        DEFAULT_CUSTOM_COVERAGE_SCRIPT_NAME_def)
qed

section \<open>Report: the custom script\<close>

text \<open>
  Claim C5. When \<^verbatim>\<open>package.json\<close> defines a script under the key \<^verbatim>\<open>coverage:report\<close> (the
  value read at line 34 is truthy, which is what line 145 tests) and the coverage file
  exists, \<^verbatim>\<open>coverageReport\<close> never calls the reporting engine, whatever the path helpers do;
  and when the path helpers return, it spawns exactly one subprocess,
  \<^verbatim>\<open>npm run coverage:report\<close> with \<^verbatim>\<open>stdio: 'inherit'\<close>, and its result is that subprocess's
  settlement.
\<close>

theorem coverageReport_custom_script:
  assumes "customNycReportScript E fs0 = Inr script" and "truthy_opt script"
      and "existsSync (fs w) (nycFilename E)"
  shows "filter isNycCall (trace (snd (coverageReport E script w))) = filter isNycCall (trace w) \<and>
         (\<forall>w1. preparePaths E w = (Inr (), w1) \<longrightarrow>
            fst (coverageReport E script w) =
              (case fst (execa E ''npm'' [''run'', ''coverage:report''] [(''stdio'', ''inherit'')] (fs w1)) of
                 Inl e \<Rightarrow> Inl e
               | Inr code \<Rightarrow> Inr (Completed code)) \<and>
            filter isReporterCall (trace (snd (coverageReport E script w))) =
              filter isReporterCall (trace w) @
              [Call_execa ''npm'' [''run'', ''coverage:report''] [(''stdio'', ''inherit'')]])"
proof -
  obtain r w1 where pp: "preparePaths E w = (r, w1)"
    by (cases "preparePaths E w")
  from preparePaths_trace [of E w] pp obtain evs where
    evs: "trace w1 = trace w @ evs" "\<forall>e\<in>set evs. isPathStep e"
    by auto
  have nyc: "filter isNycCall (trace w1) = filter isNycCall (trace w)"
    using evs by (simp add: filter_pathSteps_nyc)
  have rep: "filter isReporterCall (trace w1) = filter isReporterCall (trace w)"
    using evs by (simp add: filter_pathSteps_reporter)
  show ?thesis
  proof (cases r)
    case (Inl e)
    then have "coverageReport E script w = (Inl e, w1)"
      using assms pp by (simp add: coverageReport_def)
    then show ?thesis using nyc pp Inl by simp
  next
    case (Inr u)
    then have eq: "coverageReport E script w = runCustomScript E script w1"
      using assms pp by (simp add: coverageReport_def)
    show ?thesis
      using nyc rep pp Inr unfolding eq runCustomScript_eq
      by (simp add: isReporterCall_def)
  qed
qed

theorem coverageReport_custom_script_witness:
  "customNycReportScript demo_E demo_project = Inr (Some (JStr ''nyc report'')) \<and>
   existsSync (fs demo_collected) (nycFilename demo_E) \<and> truthy_opt (Some (JStr ''nyc report'')) \<and>
   fst (coverageReport demo_E (Some (JStr ''nyc report'')) demo_collected) = Inr (Completed 0) \<and>
   filter isReporterCall (trace (snd (coverageReport demo_E (Some (JStr ''nyc report'')) demo_collected))) =
     [Call_execa ''npm'' [''run'', ''coverage:report''] [(''stdio'', ''inherit'')]]"
proof -
  have t: "truthy_opt (Some (JStr ''nyc report''))"
    by (simp add: truthy_opt_def)
  have x: "execa demo_E = (\<lambda>cmd args opts f. (Inr 0, f))"
    by (simp add: demo_E_def)
  have "filter isReporterCall (trace demo_collected) = []"
    by (simp add: demo_collected_def)
  then show ?thesis
    using coverageReport_custom_script [OF demo_script t demo_collected_exists] demo_prepare
          demo_collected_exists t demo_script
    by (simp add: x)
qed

section \<open>Report: the order of the path steps\<close>

text \<open>
  Claim C7. In an invocation of \<^verbatim>\<open>coverageReport\<close> that is not short-circuited (the coverage
  file exists) and whose helpers return, the events are, in this order: the diagnostic pass,
  the completeness check, the file-system search exactly when the check answered that all
  source paths are missing, the path normalisation, and then the dispatch (custom script or
  reporting engine) on the file system the normalisation left; the dispatch calls no path
  helper. The answer of the check is that of \<^verbatim>\<open>checkAllPathsNotFound\<close>, a helper of
  \<^verbatim>\<open>./task-utils\<close>.
\<close>

theorem coverageReport_path_steps:
  assumes "existsSync (fs w) (nycFilename E)"
      and "showNycInfo E (nycFilename E) (fs w) = Inr ()"
      and "checkAllPathsNotFound E (nycFilename E) (fs w) = Inr allMissing"
      and "allMissing \<Longrightarrow> tryFindingLocalFiles E (nycFilename E) (fs w) = Inr f1"
      and "resolveRelativePaths E (nycFilename E) (if allMissing then f1 else fs w) = Inr f2"
  shows "\<exists>w1 rest.
           trace w1 =
             trace w @
             [Call_showNycInfo (nycFilename E), Call_checkAllPathsNotFound (nycFilename E)] @
             (if allMissing then [Call_tryFindingLocalFiles (nycFilename E)] else []) @
             [Call_resolveRelativePaths (nycFilename E)] \<and>
           fs w1 = f2 \<and>
           coverageReport E script w =
             (if truthy_opt script then runCustomScript E script w1 else runNyc E w1) \<and>
           trace (snd (coverageReport E script w)) = trace w1 @ rest \<and>
           (\<forall>e\<in>set rest. \<not> isPathStep e)"
proof -
  let ?steps = "[Call_showNycInfo (nycFilename E), Call_checkAllPathsNotFound (nycFilename E)] @
             (if allMissing then [Call_tryFindingLocalFiles (nycFilename E)] else []) @
             [Call_resolveRelativePaths (nycFilename E)]"
  let ?w1 = "w\<lparr>fs := f2, trace := trace w @ ?steps\<rparr>"
  have pp: "preparePaths E w = (Inr (), ?w1)"
    using assms(2-5) by (rule preparePaths_ok)
  have eq: "coverageReport E script w =
             (if truthy_opt script then runCustomScript E script ?w1 else runNyc E ?w1)"
    using assms(1) pp by (simp add: coverageReport_def)
  have "\<exists>rest. trace (snd (coverageReport E script w)) = trace ?w1 @ rest \<and>
          (\<forall>e\<in>set rest. \<not> isPathStep e)"
  proof (cases "truthy_opt script")
    case True
    then show ?thesis unfolding eq by (simp add: runCustomScript_eq)
  next
    case False
    from runNyc_trace [of E ?w1] obtain evs where
      "trace (snd (runNyc E ?w1)) = trace ?w1 @ evs" "\<forall>e\<in>set evs. \<not> isPathStep e \<and> \<not> isExecaCall e"
      by blast
    then show ?thesis using False unfolding eq by auto
  qed
  then obtain rest where
    "trace (snd (coverageReport E script w)) = trace ?w1 @ rest" "\<forall>e\<in>set rest. \<not> isPathStep e"
    by blast
  then show ?thesis using eq
    by (intro exI [of _ ?w1] exI [of _ rest]) simp
qed

theorem coverageReport_path_steps_witness:
  "existsSync (fs demo_collected) (nycFilename demo_E) \<and>
   checkAllPathsNotFound demo_E (nycFilename demo_E) (fs demo_collected) = Inr True \<and>
   checkAllPathsNotFound demo_E (nycFilename demo_E) (fs demo_resolved) = Inr False \<and>
   (\<exists>rest. trace (snd (coverageReport demo_E None demo_collected)) =
             [Call_showNycInfo ''/w/.nyc_output/out.json'',
              Call_checkAllPathsNotFound ''/w/.nyc_output/out.json'',
              Call_tryFindingLocalFiles ''/w/.nyc_output/out.json'',
              Call_resolveRelativePaths ''/w/.nyc_output/out.json''] @ rest \<and>
           list_all (\<lambda>e. \<not> isPathStep e) rest) \<and>
   (\<exists>rest. trace (snd (coverageReport demo_E None demo_resolved)) =
             [Call_showNycInfo ''/w/.nyc_output/out.json'',
              Call_checkAllPathsNotFound ''/w/.nyc_output/out.json'',
              Call_resolveRelativePaths ''/w/.nyc_output/out.json''] @ rest \<and>
           list_all (\<lambda>e. \<not> isPathStep e) rest)"
proof -
  have e1: "existsSync (fs demo_collected) (nycFilename demo_E)"
    by (rule demo_collected_exists)
  have e2: "existsSync (fs demo_resolved) (nycFilename demo_E)"
    by (simp add: existsSync_def demo_paths demo_resolved_def)
  have c1: "checkAllPathsNotFound demo_E (nycFilename demo_E) (fs demo_collected) = Inr True"
    by (simp add: demo_E_def demo_collected_def)
  have c2: "checkAllPathsNotFound demo_E (nycFilename demo_E) (fs demo_resolved) = Inr False"
    by (simp add: demo_E_def demo_resolved_def)
  have s1: "showNycInfo demo_E (nycFilename demo_E) (fs demo_collected) = Inr ()"
    and s2: "showNycInfo demo_E (nycFilename demo_E) (fs demo_resolved) = Inr ()"
    by (simp_all add: demo_E_def)
  have t1: "True \<Longrightarrow> tryFindingLocalFiles demo_E (nycFilename demo_E) (fs demo_collected) = Inr (fs demo_collected)"
    by (simp add: demo_E_def)
  have t2: "False \<Longrightarrow> tryFindingLocalFiles demo_E (nycFilename demo_E) (fs demo_resolved) = Inr (fs demo_resolved)"
    by simp
  have r1: "resolveRelativePaths demo_E (nycFilename demo_E) (if True then fs demo_collected else fs demo_collected) = Inr (fs demo_collected)"
    by (simp add: demo_E_def)
  have r2: "resolveRelativePaths demo_E (nycFilename demo_E) (if False then fs demo_resolved else fs demo_resolved) = Inr (fs demo_resolved)"
    by (simp add: demo_E_def)
  have a: "\<exists>rest. trace (snd (coverageReport demo_E None demo_collected)) =
             [Call_showNycInfo ''/w/.nyc_output/out.json'',
              Call_checkAllPathsNotFound ''/w/.nyc_output/out.json'',
              Call_tryFindingLocalFiles ''/w/.nyc_output/out.json'',
              Call_resolveRelativePaths ''/w/.nyc_output/out.json''] @ rest \<and>
           list_all (\<lambda>e. \<not> isPathStep e) rest"
    using coverageReport_path_steps [OF e1 s1 c1 t1 r1, of None]
    by (auto simp: demo_paths demo_collected_def list_all_iff)
  have b: "\<exists>rest. trace (snd (coverageReport demo_E None demo_resolved)) =
             [Call_showNycInfo ''/w/.nyc_output/out.json'',
              Call_checkAllPathsNotFound ''/w/.nyc_output/out.json'',
              Call_resolveRelativePaths ''/w/.nyc_output/out.json''] @ rest \<and>
           list_all (\<lambda>e. \<not> isPathStep e) rest"
    using coverageReport_path_steps [OF e2 s2 c2 t2 r2, of None]
    by (auto simp: demo_paths demo_resolved_def list_all_iff)
  show ?thesis using e1 c1 c2 a b by blast
qed

section \<open>Report: the options of the reporting engine\<close>

lemma overrideOptions_lookup:
  assumes "overrideOptions E loaded = Inr opts"
  shows "map_of opts ''tempDir'' = Some (JStr (coverageFolder E))"
    and "map_of opts ''report-dir'' =
           (case map_of loaded ''report-dir'' of
              Some (JStr dir) \<Rightarrow> Some (JStr (if dir = [] then dir else path_resolve E dir))
            | other \<Rightarrow> other)"
    and "k \<noteq> ''tempDir'' \<Longrightarrow> k \<noteq> ''report-dir'' \<Longrightarrow> map_of opts k = map_of loaded k"
  using assms
  by (auto simp: overrideOptions_def Let_def update_conv' truthy_opt_def
      split: if_splits option.splits json.splits)

lemma runNyc_calls:
  assumes "readNycOptions E (processWorkingDirectory E) (fs w) = Inr loaded"
      and "overrideOptions E loaded = Inr opts"
  shows "filter isReporterCall (trace (snd (runNyc E w))) =
           filter isReporterCall (trace w) @ [Call_NYC_report opts]"
proof -
  let ?pre = "[Call_readNycOptions (processWorkingDirectory E),
               Debug ''calling NYC reporter with options %o'' [Some (JObj opts)],
               Debug ''current working directory is %s'' [Some (JStr (cwd E))],
               Call_NYC_report opts]"
  let ?w4 = "w\<lparr>trace := trace w @ ?pre\<rparr>"
  show ?thesis
  proof (cases "NYC_report E opts (fs w)")
    case (Inl e)
    then have "runNyc E w = (Inl e, ?w4)"
      using assms by (simp add: runNyc_def call_def debug_def Let_def)
    then show ?thesis by (simp add: isReporterCall_def)
  next
    case (Inr f)
    then have eq: "runNyc E w = returnReportFolder E opts (?w4\<lparr>fs := f\<rparr>)"
      using assms by (simp add: runNyc_def call_def debug_def Let_def)
    from returnReportFolder_trace [of E opts "?w4\<lparr>fs := f\<rparr>"] obtain evs where
      evs: "trace (snd (returnReportFolder E opts (?w4\<lparr>fs := f\<rparr>))) = trace (?w4\<lparr>fs := f\<rparr>) @ evs"
           "\<forall>e\<in>set evs. isDebug e"
      by blast
    have "filter isReporterCall evs = []"
      using evs(2) by (induction evs) (auto simp: isReporterCall_def elim: isDebug.elims)
    then show ?thesis using evs(1) by (simp add: eq isReporterCall_def)
  qed
qed

lemma demo_no_script: "customNycReportScript demo_E (fs demo_fresh) = Inr None"
proof -
  have "pkg demo_E (fs demo_fresh) = Inr (JObj [])"
    by (simp add: pkg_def existsSync_def demo_fresh_def pkgFilename_def
        processWorkingDirectory_def join_def)
  then show ?thesis
    by (simp add: customNycReportScript_def scripts_def truthy_opt_def
        DEFAULT_CUSTOM_COVERAGE_SCRIPT_NAME_def)
qed

lemma demo_override:
  "overrideOptions demo_E demo_options =
     Inr [(''reporter'', JArr [JStr ''html'']), (''report-dir'', JStr ''/w/coverage''),
          (''tempDir'', JStr ''/w/.nyc_output'')]"
  by (simp add: overrideOptions_def demo_options_def demo_paths truthy_opt_def Let_def)
     (simp add: demo_E_def join_def)

text \<open>
  Claim C6, as amended. With no custom script, a coverage file and path helpers that return,
  \<^verbatim>\<open>coverageReport\<close> calls the reporting engine once, with the options \<^verbatim>\<open>readNycOptions\<close>
  loaded and two overrides: \<^verbatim>\<open>tempDir\<close> is \<^verbatim>\<open><cwd>/.nyc_output\<close>, and \<^verbatim>\<open>report-dir\<close>, when it is a
  non-empty string, is replaced by \<^verbatim>\<open>path.resolve\<close> of it. A \<^verbatim>\<open>report-dir\<close> that is absent or
  falsy (the empty string, \<^verbatim>\<open>null\<close>, \<^verbatim>\<open>false\<close>, \<^verbatim>\<open>0\<close>) is passed on as loaded, and so is every
  other option. (A truthy \<^verbatim>\<open>report-dir\<close> that is not a string makes \<^verbatim>\<open>path.resolve\<close> throw;
  then \<open>overrideOptions\<close> returns no options.)
\<close>

theorem coverageReport_nyc_options:
  assumes "customNycReportScript E fs0 = Inr script" and "\<not> truthy_opt script"
      and "existsSync (fs w) (nycFilename E)"
      and "preparePaths E w = (Inr (), w1)"
      and "readNycOptions E (cwd E) (fs w1) = Inr loaded"
      and "overrideOptions E loaded = Inr opts"
  shows "filter isReporterCall (trace (snd (coverageReport E script w))) =
           filter isReporterCall (trace w) @ [Call_NYC_report opts] \<and>
         map_of opts ''tempDir'' = Some (JStr (join (cwd E) ''.nyc_output'')) \<and>
         map_of opts ''report-dir'' =
           (case map_of loaded ''report-dir'' of
              Some (JStr dir) \<Rightarrow> Some (JStr (if dir = [] then dir else path_resolve E dir))
            | other \<Rightarrow> other) \<and>
         (\<forall>k. k \<noteq> ''tempDir'' \<and> k \<noteq> ''report-dir'' \<longrightarrow> map_of opts k = map_of loaded k)"
proof -
  from preparePaths_trace [of E w] assms(4) obtain evs where
    evs: "trace w1 = trace w @ evs" "\<forall>e\<in>set evs. isPathStep e"
    by auto
  have rep: "filter isReporterCall (trace w1) = filter isReporterCall (trace w)"
    using evs by (simp add: filter_pathSteps_reporter)
  have eq: "coverageReport E script w = runNyc E w1"
    using assms(2,3,4) by (simp add: coverageReport_def)
  have loaded: "readNycOptions E (processWorkingDirectory E) (fs w1) = Inr loaded"
    using assms(5) by (simp add: processWorkingDirectory_def)
  have calls: "filter isReporterCall (trace (snd (coverageReport E script w))) =
           filter isReporterCall (trace w) @ [Call_NYC_report opts]"
    using runNyc_calls [OF loaded assms(6)] rep by (simp add: eq)
  have temp: "map_of opts ''tempDir'' = Some (JStr (join (cwd E) ''.nyc_output''))"
    using overrideOptions_lookup(1) [OF assms(6)]
    by (simp add: coverageFolder_def processWorkingDirectory_def outputFolder_def)
  show ?thesis
    using calls temp overrideOptions_lookup(2,3) [OF assms(6)] by simp
qed

theorem coverageReport_nyc_options_witness:
  "customNycReportScript demo_E (fs demo_fresh) = Inr None \<and> \<not> truthy_opt None \<and>
   existsSync (fs demo_collected) (nycFilename demo_E) \<and>
   readNycOptions demo_E (cwd demo_E) (fs demo_collected) =
     Inr [(''reporter'', JArr [JStr ''html'']), (''report-dir'', JStr ''coverage'')] \<and>
   filter isReporterCall (trace (snd (coverageReport demo_E None demo_collected))) =
     [Call_NYC_report [(''reporter'', JArr [JStr ''html'']), (''report-dir'', JStr ''/w/coverage''),
                       (''tempDir'', JStr ''/w/.nyc_output'')]]"
proof -
  let ?w1 = "demo_collected\<lparr>trace :=
        [Call_showNycInfo ''/w/.nyc_output/out.json'',
         Call_checkAllPathsNotFound ''/w/.nyc_output/out.json'',
         Call_tryFindingLocalFiles ''/w/.nyc_output/out.json'',
         Call_resolveRelativePaths ''/w/.nyc_output/out.json'']\<rparr>"
  have f: "\<not> truthy_opt None"
    by (simp add: truthy_opt_def)
  have l: "readNycOptions demo_E (cwd demo_E) (fs ?w1) = Inr demo_options"
    by (simp add: demo_E_def)
  have l': "readNycOptions demo_E (cwd demo_E) (fs demo_collected) =
     Inr [(''reporter'', JArr [JStr ''html'']), (''report-dir'', JStr ''coverage'')]"
    by (simp add: demo_E_def demo_options_def)
  have "filter isReporterCall (trace demo_collected) = []"
    by (simp add: demo_collected_def)
  then show ?thesis
    using coverageReport_nyc_options [OF demo_no_script f demo_collected_exists demo_prepare l demo_override]
      demo_no_script f demo_collected_exists l'
    by simp
qed

text \<open>
  Claim C6 as stated fails when \<^verbatim>\<open>report-dir\<close> is present and empty: the guard on line 162
  tests its truthiness, so the empty string is handed to the engine as it is, not as its
  resolution (the working directory).
\<close>

theorem coverageReport_empty_report_dir:
  "readNycOptions demo_E_emptyDir (cwd demo_E_emptyDir) (fs demo_collected) =
     Inr [(''report-dir'', JStr '''')] \<and>
   path_resolve demo_E_emptyDir '''' = ''/w'' \<and>
   overrideOptions demo_E_emptyDir [(''report-dir'', JStr '''')] =
     Inr [(''report-dir'', JStr ''''), (''tempDir'', JStr ''/w/.nyc_output'')] \<and>
   filter isNycCall (trace (snd (coverageReport demo_E_emptyDir None demo_collected))) =
     [Call_NYC_report [(''report-dir'', JStr ''''), (''tempDir'', JStr ''/w/.nyc_output'')]]"
proof -
  let ?E = demo_E_emptyDir
  have n: "nycFilename ?E = ''/w/.nyc_output/out.json''" "coverageFolder ?E = ''/w/.nyc_output''"
    by (simp_all add: nycFilename_def coverageFolder_def processWorkingDirectory_def
        outputFolder_def join_def demo_E_emptyDir_def demo_E_def)
  have l: "\<And>p f. readNycOptions ?E p f = Inr [(''report-dir'', JStr '''')]"
    by (simp add: demo_E_emptyDir_def)
  have r: "path_resolve ?E '''' = ''/w''"
    by (simp add: demo_E_emptyDir_def demo_E_def)
  have ov: "overrideOptions ?E [(''report-dir'', JStr '''')] =
     Inr [(''report-dir'', JStr ''''), (''tempDir'', JStr ''/w/.nyc_output'')]"
    by (simp add: overrideOptions_def n truthy_opt_def Let_def)
  have ex: "existsSync (fs demo_collected) (nycFilename ?E)"
    by (simp add: existsSync_def n demo_collected_def)
  have pp: "preparePaths ?E demo_collected =
     (Inr (),
      demo_collected\<lparr>fs := fs demo_collected, trace := trace demo_collected @
        [Call_showNycInfo (nycFilename ?E), Call_checkAllPathsNotFound (nycFilename ?E)] @
        (if True then [Call_tryFindingLocalFiles (nycFilename ?E)] else []) @
        [Call_resolveRelativePaths (nycFilename ?E)]\<rparr>)"
    by (rule preparePaths_ok [where ?f1.0 = "fs demo_collected"])
       (simp_all add: demo_E_emptyDir_def demo_E_def demo_collected_def)
  have "filter isReporterCall (trace (snd (runNyc ?E (snd (preparePaths ?E demo_collected))))) =
          filter isReporterCall (trace (snd (preparePaths ?E demo_collected))) @
          [Call_NYC_report [(''report-dir'', JStr ''''), (''tempDir'', JStr ''/w/.nyc_output'')]]"
    by (rule runNyc_calls [OF l ov])
  then have "filter isReporterCall (trace (snd (coverageReport ?E None demo_collected))) =
     [Call_NYC_report [(''report-dir'', JStr ''''), (''tempDir'', JStr ''/w/.nyc_output'')]]"
    using ex pp by (simp add: coverageReport_def truthy_opt_def demo_collected_def isReporterCall_def)
  then have "filter isNycCall (filter isReporterCall (trace (snd (coverageReport ?E None demo_collected)))) =
     [Call_NYC_report [(''report-dir'', JStr ''''), (''tempDir'', JStr ''/w/.nyc_output'')]]"
    by simp
  then have c: "filter isNycCall (trace (snd (coverageReport ?E None demo_collected))) =
     [Call_NYC_report [(''report-dir'', JStr ''''), (''tempDir'', JStr ''/w/.nyc_output'')]]"
    by (simp add: isReporterCall_def conj_commute cong: conj_cong)
  show ?thesis using l r ov c by simp
qed

section \<open>Report: the result of the reporting-engine path\<close>

text \<open>When the print returns, the task's result is the report folder of the options.\<close>

lemma returnReportFolder_result:
  "fst (maybePrintFinalCoverageFiles E (map_of opts ''report-dir'')
          (debug ''after reporting, returning the report folder name %s'' [map_of opts ''report-dir''] w)) = Inr () \<Longrightarrow>
   fst (returnReportFolder E opts w) = Inr (ReportFolder (map_of opts ''report-dir''))"
  by (cases "maybePrintFinalCoverageFiles E (map_of opts ''report-dir'')
          (debug ''after reporting, returning the report folder name %s'' [map_of opts ''report-dir''] w)")
     (simp add: returnReportFolder_def Let_def)

text \<open>
  Claim C8 at a report that leaves no \<^verbatim>\<open>coverage-final.json\<close> (the reporter list is
  \<^verbatim>\<open>html\<close> only): the engine is called and completes, and the task does not return the
  report folder \<^verbatim>\<open>/w/coverage\<close>: the diagnostic print throws \<^verbatim>\<open>ENOENT\<close> inside the
  continuation, which rejects the task.
\<close>

theorem coverageReport_missing_final_coverage:
  "fst (coverageReport demo_E None demo_collected) =
     Inl (ENOENT ''/w/coverage/coverage-final.json'') \<and>
   filter isNycCall (trace (snd (coverageReport demo_E None demo_collected))) =
     [Call_NYC_report [(''reporter'', JArr [JStr ''html'']), (''report-dir'', JStr ''/w/coverage''),
                       (''tempDir'', JStr ''/w/.nyc_output'')]] \<and>
   NYC_report demo_E [(''reporter'', JArr [JStr ''html'']), (''report-dir'', JStr ''/w/coverage''),
                       (''tempDir'', JStr ''/w/.nyc_output'')] (fs demo_collected) =
     Inr ((fs demo_collected)\<lparr>dirs := insert ''/w/coverage'' (dirs (fs demo_collected))\<rparr>)"
proof -
  let ?opts = "[(''reporter'', JArr [JStr ''html'']), (''report-dir'', JStr ''/w/coverage''),
                       (''tempDir'', JStr ''/w/.nyc_output'')]"
  let ?w1 = "demo_collected\<lparr>trace :=
        [Call_showNycInfo ''/w/.nyc_output/out.json'',
         Call_checkAllPathsNotFound ''/w/.nyc_output/out.json'',
         Call_tryFindingLocalFiles ''/w/.nyc_output/out.json'',
         Call_resolveRelativePaths ''/w/.nyc_output/out.json'']\<rparr>"
  have eq: "coverageReport demo_E None demo_collected = runNyc demo_E ?w1"
    using demo_collected_exists demo_prepare by (simp add: coverageReport_def truthy_opt_def)
  have l: "\<And>p f. readNycOptions demo_E p f = Inr demo_options"
    by (simp add: demo_E_def)
  have n: "NYC_report demo_E ?opts = (\<lambda>f. Inr (f\<lparr>dirs := insert ''/w/coverage'' (dirs f)\<rparr>))"
    by (simp add: demo_E_def)
  have run: "runNyc demo_E ?w1 =
     returnReportFolder demo_E ?opts
       (?w1\<lparr>trace := trace ?w1 @
            [Call_readNycOptions (processWorkingDirectory demo_E),
             Debug ''calling NYC reporter with options %o'' [Some (JObj ?opts)],
             Debug ''current working directory is %s'' [Some (JStr (cwd demo_E))],
             Call_NYC_report ?opts],
          fs := (fs demo_collected)\<lparr>dirs := insert ''/w/coverage'' (dirs (fs demo_collected))\<rparr>\<rparr>)"
    by (simp add: runNyc_def l demo_override n call_def debug_def Let_def)
  have res: "fst (coverageReport demo_E None demo_collected) =
     Inl (ENOENT ''/w/coverage/coverage-final.json'')"
    unfolding eq run
    by (simp add: returnReportFolder_def maybePrint_reads Let_def debug_def join_def
        readFileSync_def demo_collected_def)
  have calls: "filter isNycCall (trace (snd (coverageReport demo_E None demo_collected))) =
     [Call_NYC_report ?opts]"
    unfolding eq run
    by (simp add: returnReportFolder_def maybePrint_reads Let_def debug_def join_def
        readFileSync_def demo_collected_def)
  show ?thesis using res calls by (simp add: n)
qed

section \<open>Merging coverage\<close>
















section \<open>Combine: payloads on disjoint files\<close>









end
